theory Spec2Isabelle
  imports Complex_Main
begin

section \<open>Python strings\<close>

text \<open>
  A Python \<open>str\<close> is modelled as a \<open>string\<close> whose characters are the code points
  0 to 255 (the Latin-1 range of Unicode): the degree sign is \<open>CHR 0xB0\<close>. On this range
  the Unicode-aware classes that the program relies on are written out below: the decimal
  digits matched by \<open>\d\<close> are the ASCII digits, and \<open>str.strip\<close> removes the twelve
  code points for which \<open>str.isspace\<close> holds.
\<close>

definition is_digit :: "char \<Rightarrow> bool" where
  "is_digit c = (c \<in> set ''0123456789'')"

definition is_space :: "char \<Rightarrow> bool" where
  "is_space c = (c \<in> set [CHR 0x09, CHR 0x0A, CHR 0x0B, CHR 0x0C, CHR 0x0D,
                            CHR 0x1C, CHR 0x1D, CHR 0x1E, CHR 0x1F, CHR 0x20,
                            CHR 0x85, CHR 0xA0])"

text \<open>\<open>s.strip()\<close>: leading and trailing white space removed.\<close>

definition str_strip :: "string \<Rightarrow> string" where
  "str_strip s = rev (dropWhile is_space (rev (dropWhile is_space s)))"

text \<open>\<open>s.split(sep)\<close> for a separator of one character: never the empty list.\<close>

fun str_split :: "char \<Rightarrow> string \<Rightarrow> string list" where
  "str_split sep [] = [[]]"
| "str_split sep (c # cs) =
     (if c = sep then [] # str_split sep cs
      else (case str_split sep cs of
              [] \<Rightarrow> [[c]]
            | p # ps \<Rightarrow> (c # p) # ps))"

text \<open>\<open>sep.join(parts)\<close>.\<close>

fun str_join :: "string \<Rightarrow> string list \<Rightarrow> string" where
  "str_join sep [] = []"
| "str_join sep [p] = p"
| "str_join sep (p # q # ps) = p @ sep @ str_join sep (q # ps)"

section \<open>Separating the tolerance from the base number\<close>

text \<open>
  Lines 46 to 56 of \<open>replacement_function\<close>: the pair \<open>(base_number, tolerance)\<close>.
  \<open>split_plus[0]\<close> is \<open>hd\<close> and \<open>split_plus[1:]\<close> is \<open>tl\<close>; the list is never empty.
\<close>

definition split_token :: "string \<Rightarrow> string \<times> string" where
  "split_token text =
     (let split_plus = str_split (CHR ''+'') text;
          split_minus = str_split (CHR ''-'') text
      in if length split_plus > 1
         then (hd split_plus, ''+'' @ str_join ''+'' (tl split_plus))
         else if length split_minus > 1
         then (hd split_minus, ''-'' @ str_join ''-'' (tl split_minus))
         else (text, []))"

section \<open>Python floats\<close>

text \<open>
  A Python \<open>float\<close> is an IEEE 754 binary64 value: a finite value is kept as the
  rational number it denotes (\<open>Fin 0\<close> is \<open>+0.0\<close>), with negative zero, the two
  infinities and not-a-number beside it. Every arithmetic result is the exact rational result
  rounded to the nearest representable value, ties to the even significand.
\<close>

datatype exn = ValueError | ZeroDivisionError | LibraryError string

datatype pyfloat = Fin rat | NegZero | PosInf | NegInf | NaN

definition pow2 :: "int \<Rightarrow> rat" where
  "pow2 e = (if 0 \<le> e then 2 ^ nat e else 1 / 2 ^ nat (- e))"

definition pow10 :: "int \<Rightarrow> rat" where
  "pow10 e = (if 0 \<le> e then 10 ^ nat e else 1 / 10 ^ nat (- e))"

fun bit_length :: "nat \<Rightarrow> nat" where
  "bit_length n = (if n = 0 then 0 else Suc (bit_length (n div 2)))"

text \<open>
  For \<open>r > 0\<close>: the exponent \<open>e\<close> with \<open>2 ^ e \<le> r < 2 ^ (e + 1)\<close>, read off the
  number of bits of the integer part of \<open>r\<close>, or of \<open>1 / r\<close> when \<open>r < 1\<close>.
\<close>

definition floor_log2 :: "rat \<Rightarrow> int" where
  "floor_log2 r =
     (if 1 \<le> r then int (bit_length (nat \<lfloor>r\<rfloor>)) - 1
      else - int (bit_length (nat (\<lceil>1 / r\<rceil> - 1))))"

definition round_half_even :: "rat \<Rightarrow> int" where
  "round_half_even r =
     (let f = \<lfloor>r\<rfloor>; d = r - of_int f
      in if d < 1 / 2 then f
         else if 1 / 2 < d then f + 1
         else if even f then f else f + 1)"

text \<open>
  Rounding a positive rational to binary64: 53 significant bits, the least exponent of the
  unit in the last place is \<open>-1074\<close> (subnormal numbers). The result is \<open>n * 2 ^ q\<close>;
  the largest finite value is \<open>(2 ^ 53 - 1) * 2 ^ 971\<close>, and a result beyond it
  overflows (\<open>None\<close>).
\<close>

definition round_pos :: "rat \<Rightarrow> rat option" where
  "round_pos r =
     (let q = max (floor_log2 r - 52) (- 1074);
          n = round_half_even (r / pow2 q)
      in if 971 < q \<or> (q = 971 \<and> 9007199254740992 \<le> n) then None
         else Some (of_int n * pow2 q))"

definition fround :: "rat \<Rightarrow> pyfloat" where
  "fround r =
     (if r = 0 then Fin 0
      else if 0 < r then (case round_pos r of None \<Rightarrow> PosInf | Some v \<Rightarrow> Fin v)
      else (case round_pos (- r) of
              None \<Rightarrow> NegInf
            | Some v \<Rightarrow> if v = 0 then NegZero else Fin (- v)))"

fun fval :: "pyfloat \<Rightarrow> rat" where
  "fval (Fin q) = q"
| "fval _ = 0"

fun is_neg :: "pyfloat \<Rightarrow> bool" where
  "is_neg (Fin q) = (q < 0)"
| "is_neg NegZero = True"
| "is_neg NegInf = True"
| "is_neg _ = False"

fun is_inf :: "pyfloat \<Rightarrow> bool" where
  "is_inf PosInf = True"
| "is_inf NegInf = True"
| "is_inf _ = False"

text \<open>\<open>a / b\<close>: Python raises \<open>ZeroDivisionError\<close> for a zero divisor.\<close>

definition float_div :: "pyfloat \<Rightarrow> pyfloat \<Rightarrow> exn + pyfloat" where
  "float_div a b =
     (if b = Fin 0 \<or> b = NegZero then Inl ZeroDivisionError
      else Inr (if a = NaN \<or> b = NaN then NaN
                else if is_inf a
                then (if is_inf b then NaN
                      else if is_neg a = is_neg b then PosInf else NegInf)
                else if is_inf b \<or> fval a = 0
                then (if is_neg a = is_neg b then Fin 0 else NegZero)
                else fround (fval a / fval b)))"

text \<open>\<open>a - b\<close>.\<close>

definition float_sub :: "pyfloat \<Rightarrow> pyfloat \<Rightarrow> pyfloat" where
  "float_sub a b =
     (if a = NaN \<or> b = NaN then NaN
      else if is_inf a
      then (if is_inf b \<and> is_neg a = is_neg b then NaN else a)
      else if is_inf b then (if is_neg b then PosInf else NegInf)
      else if fval a - fval b = 0
      then (if a = NegZero \<and> b = Fin 0 then NegZero else Fin 0)
      else fround (fval a - fval b))"

text \<open>\<open>a < b\<close>: false as soon as one side is not a number.\<close>

definition float_lt :: "pyfloat \<Rightarrow> pyfloat \<Rightarrow> bool" where
  "float_lt a b =
     (if a = NaN \<or> b = NaN then False
      else if a = PosInf \<or> b = NegInf then False
      else if a = NegInf \<or> b = PosInf then True
      else fval a < fval b)"

text \<open>\<open>max(a, b)\<close> keeps its first argument unless the second is greater.\<close>

definition py_max :: "pyfloat \<Rightarrow> pyfloat \<Rightarrow> pyfloat" where
  "py_max a b = (if float_lt a b then b else a)"

subsection \<open>\<open>float(s)\<close> of a string\<close>

text \<open>
  CPython first maps a string that is not pure ASCII to ASCII: a code point below 127 stays,
  white space becomes a blank, and the first other code point becomes a question mark that
  ends the string. Underscores are allowed between two digits only. Then leading and
  trailing C white space is removed and what is left has to be, as a whole, a decimal
  number with an optional exponent, or one of \<open>inf\<close>, \<open>infinity\<close>, \<open>nan\<close> in any case,
  after an optional sign. \<open>None\<close> is \<open>ValueError\<close>.
\<close>

fun transform_ascii :: "string \<Rightarrow> string" where
  "transform_ascii [] = []"
| "transform_ascii (c # cs) =
     (if (of_char c :: nat) < 127 then c # transform_ascii cs
      else if is_space c then CHR '' '' # transform_ascii cs
      else ''?'')"

definition to_ascii :: "string \<Rightarrow> string" where
  "to_ascii s = (if list_all (\<lambda>c. (of_char c :: nat) < 128) s then s else transform_ascii s)"

fun underscores_ok :: "char \<Rightarrow> string \<Rightarrow> bool" where
  "underscores_ok prev [] = (prev \<noteq> CHR ''_'')"
| "underscores_ok prev (c # cs) =
     (if c = CHR ''_'' then is_digit prev \<and> underscores_ok c cs
      else (prev = CHR ''_'' \<longrightarrow> is_digit c) \<and> underscores_ok c cs)"

definition strip_underscores :: "string \<Rightarrow> string option" where
  "strip_underscores s =
     (if CHR ''_'' \<notin> set s then Some s
      else if underscores_ok (CHR 0x00) s then Some (filter (\<lambda>c. c \<noteq> CHR ''_'') s)
      else None)"

definition c_space :: "char \<Rightarrow> bool" where
  "c_space c = (c \<in> set [CHR '' '', CHR 0x09, CHR 0x0A, CHR 0x0B, CHR 0x0C, CHR 0x0D])"

definition c_strip :: "string \<Rightarrow> string option" where
  "c_strip s =
     (let s1 = dropWhile c_space s
      in if s1 = [] then None else Some (rev (dropWhile c_space (rev s1))))"

fun take_sign :: "string \<Rightarrow> bool \<times> string" where
  "take_sign [] = (False, [])"
| "take_sign (c # cs) =
     (if c = CHR ''-'' then (True, cs)
      else if c = CHR ''+'' then (False, cs)
      else (False, c # cs))"

definition digit_of :: "char \<Rightarrow> nat" where
  "digit_of c = of_char c - 48"

definition digits_val :: "string \<Rightarrow> nat" where
  "digits_val ds = foldl (\<lambda>n c. 10 * n + digit_of c) 0 ds"

definition parse_exponent :: "string \<Rightarrow> int option" where
  "parse_exponent s =
     (case s of
        [] \<Rightarrow> Some 0
      | c # r \<Rightarrow>
          if c = CHR ''e'' \<or> c = CHR ''E''
          then (let (neg, ds) = take_sign r
                in if ds \<noteq> [] \<and> list_all is_digit ds
                   then Some (if neg then - int (digits_val ds) else int (digits_val ds))
                   else None)
          else None)"

text \<open>The magnitude of an unsigned decimal literal, exactly.\<close>

definition parse_decimal :: "string \<Rightarrow> rat option" where
  "parse_decimal s =
     (let ip = takeWhile is_digit s;
          r1 = dropWhile is_digit s;
          (fp, r2) = (case r1 of
                        [] \<Rightarrow> ([], [])
                      | c # r \<Rightarrow>
                          if c = CHR ''.''
                          then (takeWhile is_digit r, dropWhile is_digit r)
                          else ([], r1))
      in if ip = [] \<and> fp = [] then None
         else (case parse_exponent r2 of
                 None \<Rightarrow> None
               | Some e \<Rightarrow>
                   Some (of_nat (digits_val (ip @ fp)) * pow10 (e - int (length fp)))))"

definition ascii_lower :: "char \<Rightarrow> char" where
  "ascii_lower c =
     (case map_of (zip ''ABCDEFGHIJKLMNOPQRSTUVWXYZ'' ''abcdefghijklmnopqrstuvwxyz'') c of
        None \<Rightarrow> c
      | Some l \<Rightarrow> l)"

definition py_float :: "string \<Rightarrow> pyfloat option" where
  "py_float s =
     (case strip_underscores (to_ascii s) of
        None \<Rightarrow> None
      | Some t \<Rightarrow>
         (case c_strip t of
            None \<Rightarrow> None
          | Some u \<Rightarrow>
             (let (neg, body) = take_sign u
              in case parse_decimal body of
                   Some m \<Rightarrow>
                     Some (if neg then (if m = 0 then NegZero else fround (- m))
                           else fround m)
                 | None \<Rightarrow>
                     (let l = map ascii_lower body
                      in if l = ''inf'' \<or> l = ''infinity''
                         then Some (if neg then NegInf else PosInf)
                         else if l = ''nan'' then Some NaN
                         else None))))"

subsection \<open>Fixed-point formatting\<close>

text \<open>
  \<open>f"{x:.{p}f}"\<close>: the exact value of the float rounded to \<open>p\<close> decimal places, ties to
  even, the sign of the float kept (also on a zero). A precision above \<open>INT_MAX\<close> raises
  \<open>ValueError\<close>.
\<close>

definition digit_char :: "nat \<Rightarrow> char" where
  "digit_char d = ''0123456789'' ! d"

fun show_nat :: "nat \<Rightarrow> string" where
  "show_nat n = (if n < 10 then [digit_char n] else show_nat (n div 10) @ [digit_char (n mod 10)])"

definition fixed_digits :: "rat \<Rightarrow> nat \<Rightarrow> string" where
  "fixed_digits q p =
     (let n = nat (round_half_even (q * 10 ^ p));
          frac = show_nat (n mod 10 ^ p)
      in show_nat (n div 10 ^ p) @
         (if p = 0 then [] else ''.'' @ replicate (p - length frac) (CHR ''0'') @ frac))"

definition format_fixed :: "pyfloat \<Rightarrow> nat \<Rightarrow> exn + string" where
  "format_fixed x p =
     (if 2147483647 < p then Inl ValueError
      else Inr (case x of
                  NaN \<Rightarrow> ''nan''
                | PosInf \<Rightarrow> ''inf''
                | NegInf \<Rightarrow> ''-inf''
                | NegZero \<Rightarrow> ''-'' @ fixed_digits 0 p
                | Fin q \<Rightarrow> if q < 0 then ''-'' @ fixed_digits (- q) p else fixed_digits q p))"

section \<open>Converting one value\<close>

text \<open>
  \<open>s.lower()\<close> on the code points 0 to 255: the letters A to Z and the capital letters
  from U+00C0 to U+00DE (the multiplication sign U+00D7 apart) have a lower-case form.
\<close>

definition upper_chars :: string where
  "upper_chars = ''ABCDEFGHIJKLMNOPQRSTUVWXYZ'' @
       [
        CHR 0xC0, CHR 0xC1, CHR 0xC2, CHR 0xC3, CHR 0xC4, CHR 0xC5,
        CHR 0xC6, CHR 0xC7, CHR 0xC8, CHR 0xC9, CHR 0xCA, CHR 0xCB,
        CHR 0xCC, CHR 0xCD, CHR 0xCE, CHR 0xCF, CHR 0xD0, CHR 0xD1,
        CHR 0xD2, CHR 0xD3, CHR 0xD4, CHR 0xD5, CHR 0xD6, CHR 0xD8,
        CHR 0xD9, CHR 0xDA, CHR 0xDB, CHR 0xDC, CHR 0xDD, CHR 0xDE]"

definition lower_chars :: string where
  "lower_chars = ''abcdefghijklmnopqrstuvwxyz'' @
       [
        CHR 0xE0, CHR 0xE1, CHR 0xE2, CHR 0xE3, CHR 0xE4, CHR 0xE5,
        CHR 0xE6, CHR 0xE7, CHR 0xE8, CHR 0xE9, CHR 0xEA, CHR 0xEB,
        CHR 0xEC, CHR 0xED, CHR 0xEE, CHR 0xEF, CHR 0xF0, CHR 0xF1,
        CHR 0xF2, CHR 0xF3, CHR 0xF4, CHR 0xF5, CHR 0xF6, CHR 0xF8,
        CHR 0xF9, CHR 0xFA, CHR 0xFB, CHR 0xFC, CHR 0xFD, CHR 0xFE]"

definition py_lower :: "string \<Rightarrow> string" where
  "py_lower s =
     map (\<lambda>c. case map_of (zip upper_chars lower_chars) c of None \<Rightarrow> c | Some l \<Rightarrow> l) s"

text \<open>
  \<open>convert_value\<close>: a string that \<open>float\<close> rejects is returned as it is; the literals
  \<open>25.4\<close> and \<open>2.54\<close> are the floats nearest to these decimals.
\<close>

definition convert_value :: "string \<Rightarrow> string \<Rightarrow> nat \<Rightarrow> exn + string" where
  "convert_value value_str unit precision =
     (case py_float value_str of
        None \<Rightarrow> Inr value_str
      | Some v \<Rightarrow>
         (let factor = (if py_lower unit = ''mm'' then fround (127 / 5) else fround (127 / 50))
          in case float_div v factor of
               Inl e \<Rightarrow> Inl e
             | Inr converted \<Rightarrow> format_fixed converted precision))"

section \<open>Regular expressions\<close>

text \<open>
  The three patterns of the program use character classes, sequence, option and
  repetition only. A pattern is matched against a whole string by taking derivatives.
\<close>

datatype rx = Nul | Eps | Cls string | AnyChar | Seq rx rx | Alt rx rx | Star rx

definition rx_opt :: "rx \<Rightarrow> rx" where
  "rx_opt r = Alt Eps r"

definition rx_plus :: "rx \<Rightarrow> rx" where
  "rx_plus r = Seq r (Star r)"

fun nullable :: "rx \<Rightarrow> bool" where
  "nullable Nul = False"
| "nullable Eps = True"
| "nullable (Cls cs) = False"
| "nullable AnyChar = False"
| "nullable (Seq r s) = (nullable r \<and> nullable s)"
| "nullable (Alt r s) = (nullable r \<or> nullable s)"
| "nullable (Star r) = True"

fun deriv :: "char \<Rightarrow> rx \<Rightarrow> rx" where
  "deriv c Nul = Nul"
| "deriv c Eps = Nul"
| "deriv c (Cls cs) = (if c \<in> set cs then Eps else Nul)"
| "deriv c AnyChar = Eps"
| "deriv c (Seq r s) =
     (if nullable r then Alt (Seq (deriv c r) s) (deriv c s) else Seq (deriv c r) s)"
| "deriv c (Alt r s) = Alt (deriv c r) (deriv c s)"
| "deriv c (Star r) = Seq (deriv c r) (Star r)"

fun rx_match :: "rx \<Rightarrow> string \<Rightarrow> bool" where
  "rx_match r [] = nullable r"
| "rx_match r (c # cs) = rx_match (deriv c r) cs"

text \<open>
  \<open>re.match\<close> of a pattern written between \<open>^\<close> and \<open>$\<close>: the pattern has to match from
  the start up to the end of the string, or up to a line feed that ends the string.
\<close>

definition re_match_dollar :: "rx \<Rightarrow> string \<Rightarrow> bool" where
  "re_match_dollar r s =
     (rx_match r s \<or> (s \<noteq> [] \<and> last s = CHR 0x0A \<and> rx_match r (butlast s)))"

text \<open>\<open>re.search\<close>: the pattern matches somewhere in the string.\<close>

definition re_search :: "rx \<Rightarrow> string \<Rightarrow> bool" where
  "re_search r s = rx_match (Seq (Star AnyChar) (Seq r (Star AnyChar))) s"

definition rx_digit :: rx where
  "rx_digit = Cls ''0123456789''"

text \<open>\<open>\d[xX]\d\<close>\<close>

definition gdt_pattern :: rx where
  "gdt_pattern = Seq rx_digit (Seq (Cls ''xX'') rx_digit)"

text \<open>\<open>^[0-9\.\+\-]+$\<close>\<close>

definition numeric_chars :: string where
  "numeric_chars = ''0123456789.+-''"

definition numeric_pattern :: rx where
  "numeric_pattern = rx_plus (Cls numeric_chars)"

text \<open>\<open>^[+-]?\d*\.?\d+(?:[+-]\d*\.?\d+)?$\<close>\<close>

definition number_pattern :: rx where
  "number_pattern =
     (let num = Seq (Star rx_digit) (Seq (rx_opt (Cls ''.'')) (rx_plus rx_digit))
      in Seq (rx_opt (Cls ''+-'')) (Seq num (rx_opt (Seq (Cls ''+-'') num))))"

section \<open>Classifying and converting a token\<close>

text \<open>
  \<open>replacement_function\<close>. The \<open>ValueError\<close> of a precision that the format rejects is
  caught and gives the text back; any other exception would propagate.
\<close>

text \<open>Lines 59 to 63: the precision \<open>prec\<close> that is read off the base number.\<close>

definition base_precision :: "string \<Rightarrow> nat" where
  "base_precision base_number =
     (let parts = str_split (CHR ''.'') base_number
      in if length parts > 1 then length (parts ! 1) else 4)"

definition replacement_function :: "string \<Rightarrow> exn + string" where
  "replacement_function text =
     (if CHR 0xB0 \<in> set text then Inr text
      else if re_search gdt_pattern text then Inr text
      else (let (base_number, tolerance) = split_token text;
                prec = base_precision base_number
            in case convert_value base_number ''mm'' prec of
                 Inr converted \<Rightarrow> Inr (converted @ tolerance)
               | Inl ValueError \<Rightarrow> Inr text
               | Inl e \<Rightarrow> Inl e))"

section \<open>Grouping the spans of a line\<close>

text \<open>
  A span is the dictionary that the PDF library returns: \<open>text\<close> and \<open>color\<close> are read
  with a default, \<open>bbox\<close>, \<open>font\<close> and \<open>size\<close> are always there. A bounding box is
  \<open>[x0, y0, x1, y1]\<close>.
\<close>

record bbox =
  b_x0 :: pyfloat
  b_y0 :: pyfloat
  b_x1 :: pyfloat
  b_y1 :: pyfloat

datatype color = ColorInt int | ColorRGB int int int

record span =
  sp_text :: "string option"
  sp_bbox :: bbox
  sp_font :: string
  sp_size :: pyfloat
  sp_color :: "color option"

record group =
  g_text :: string
  g_bbox :: bbox
  g_font :: string
  g_size :: pyfloat
  g_color :: color

definition is_numeric_text :: "string \<Rightarrow> bool" where
  "is_numeric_text t = re_match_dollar numeric_pattern (str_strip t)"

definition span_text :: "span \<Rightarrow> string" where
  "span_text sp = str_strip (case sp_text sp of None \<Rightarrow> [] | Some t \<Rightarrow> t)"

definition new_group :: "string \<Rightarrow> span \<Rightarrow> group" where
  "new_group txt sp =
     \<lparr>g_text = txt, g_bbox = sp_bbox sp, g_font = sp_font sp, g_size = sp_size sp,
      g_color = (case sp_color sp of None \<Rightarrow> ColorRGB 0 0 0 | Some c \<Rightarrow> c)\<rparr>"

definition merge_span :: "group \<Rightarrow> string \<Rightarrow> span \<Rightarrow> group" where
  "merge_span cur txt sp =
     cur\<lparr>g_text := g_text cur @ txt,
         g_bbox := (g_bbox cur)\<lparr>b_x1 := b_x1 (sp_bbox sp),
                                b_y1 := py_max (b_y1 (g_bbox cur)) (b_y1 (sp_bbox sp))\<rparr>\<rparr>"

text \<open>
  One round of the loop of \<open>group_numeric_spans\<close>. The state is the list \<open>groups\<close> and
  \<open>current\<close>: \<open>None\<close>, or the index in \<open>groups\<close> of the dictionary that \<open>current\<close>
  refers to, so that an update of \<open>current\<close> is an update of that element of the list.
\<close>

definition group_step ::
    "pyfloat \<Rightarrow> group list \<times> nat option \<Rightarrow> span \<Rightarrow> group list \<times> nat option" where
  "group_step gap_threshold st sp =
     (let (groups, current) = st;
          txt = span_text sp;
          fresh = (groups @ [new_group txt sp], Some (length groups))
      in if txt = [] then st
         else if is_numeric_text txt
         then (case current of
                 None \<Rightarrow> fresh
               | Some i \<Rightarrow>
                   (let prev_bbox = g_bbox (groups ! i);
                        cur_bbox = sp_bbox sp;
                        gap = float_sub (b_x0 cur_bbox) (b_x1 prev_bbox)
                    in if float_lt gap gap_threshold
                       then (groups[i := merge_span (groups ! i) txt sp], current)
                       else fresh))
         else (groups, None))"

fun group_loop ::
    "pyfloat \<Rightarrow> group list \<times> nat option \<Rightarrow> span list \<Rightarrow> group list \<times> nat option" where
  "group_loop gap_threshold st [] = st"
| "group_loop gap_threshold st (sp # spans) =
     group_loop gap_threshold (group_step gap_threshold st sp) spans"

definition group_numeric_spans :: "span list \<Rightarrow> pyfloat \<Rightarrow> group list" where
  "group_numeric_spans spans gap_threshold = fst (group_loop gap_threshold ([], None) spans)"

text \<open>The default \<open>gap_threshold=3.0\<close>.\<close>

definition default_gap :: pyfloat where
  "default_gap = Fin 3"

section \<open>Processing a page\<close>

text \<open>
  The body of the loop over the pages in \<open>process_pdf\<close>. What the program does to the
  outside is kept as a trace of events: the calls of the page object and the log lines that
  \<open>process_pdf\<close> itself writes (the log lines of \<open>replacement_function\<close> and
  \<open>convert_value\<close> are left out). The dictionary that \<open>page.get_text("dict")\<close> returns
  is an input. Of the calls only \<open>insert_textbox\<close> is taken to raise, as the library says:
  given the trace so far and the call.
\<close>

type_synonym pdf_line = "span list"

type_synonym pdf_block = "pdf_line list option"

type_synonym page_dict = "pdf_block list option"

type_synonym replacement = "bbox \<times> string \<times> string \<times> pyfloat \<times> color"

datatype log_msg =
    ProcessingPage
  | GroupedNumeric string bbox
  | Replacing string string
  | ApplyingRedactions
  | Reinserting
  | Inserted string bbox
  | FontFailed string exn
  | InsertedFallback string bbox

datatype event =
    Log log_msg
  | GetText
  | AddRedactAnnot bbox color
  | ApplyRedactions
  | InsertTextbox bbox string string pyfloat color

type_synonym pdf_library = "event list \<Rightarrow> event \<Rightarrow> exn option"

text \<open>A result with the trace; \<open>Inl\<close> is an exception that propagates.\<close>

type_synonym 'a outcome = "(exn \<times> event list) + ('a \<times> event list)"

fun scan_groups :: "group list \<Rightarrow> replacement list \<Rightarrow> event list \<Rightarrow> replacement list outcome" where
  "scan_groups [] replacements tr = Inr (replacements, tr)"
| "scan_groups (g # gs) replacements tr =
     (let group_text = g_text g;
          tr1 = tr @ [Log (GroupedNumeric group_text (g_bbox g))]
      in if re_match_dollar number_pattern group_text
         then (case replacement_function group_text of
                 Inl e \<Rightarrow> Inl (e, tr1)
               | Inr converted \<Rightarrow>
                   if converted \<noteq> group_text
                   then scan_groups gs
                          (replacements @ [(g_bbox g, converted, g_font g, g_size g, g_color g)])
                          (tr1 @ [Log (Replacing group_text converted)])
                   else scan_groups gs replacements tr1)
         else scan_groups gs replacements tr1)"

fun scan_lines :: "pdf_line list \<Rightarrow> replacement list \<Rightarrow> event list \<Rightarrow> replacement list outcome" where
  "scan_lines [] replacements tr = Inr (replacements, tr)"
| "scan_lines (l # ls) replacements tr =
     (case scan_groups (group_numeric_spans l default_gap) replacements tr of
        Inl x \<Rightarrow> Inl x
      | Inr (replacements', tr') \<Rightarrow> scan_lines ls replacements' tr')"

fun scan_blocks :: "pdf_block list \<Rightarrow> replacement list \<Rightarrow> event list \<Rightarrow> replacement list outcome" where
  "scan_blocks [] replacements tr = Inr (replacements, tr)"
| "scan_blocks (b # bs) replacements tr =
     (case b of
        None \<Rightarrow> scan_blocks bs replacements tr
      | Some ls \<Rightarrow>
          (case scan_lines ls replacements tr of
             Inl x \<Rightarrow> Inl x
           | Inr (replacements', tr') \<Rightarrow> scan_blocks bs replacements' tr'))"

definition white :: color where
  "white = ColorRGB 1 1 1"

fun add_redactions :: "replacement list \<Rightarrow> event list \<Rightarrow> event list" where
  "add_redactions [] tr = tr"
| "add_redactions ((rect, converted, font, fsize, col) # reps) tr =
     add_redactions reps (tr @ [AddRedactAnnot rect white])"

definition primary_insert :: "replacement \<Rightarrow> event" where
  "primary_insert rep =
     (case rep of (rect, converted, font, fsize, col) \<Rightarrow>
        InsertTextbox rect converted font fsize col)"

definition fallback_insert :: "replacement \<Rightarrow> event" where
  "fallback_insert rep =
     (case rep of (rect, converted, font, fsize, col) \<Rightarrow>
        InsertTextbox rect converted ''helv'' fsize col)"

fun reinsert :: "pdf_library \<Rightarrow> replacement list \<Rightarrow> event list \<Rightarrow> unit outcome" where
  "reinsert lib [] tr = Inr ((), tr)"
| "reinsert lib (rep # reps) tr =
     (case rep of (rect, converted, font, fsize, col) \<Rightarrow>
        (case lib tr (primary_insert rep) of
           None \<Rightarrow>
             reinsert lib reps (tr @ [primary_insert rep, Log (Inserted converted rect)])
         | Some e \<Rightarrow>
             (let tr1 = tr @ [primary_insert rep, Log (FontFailed font e)]
              in case lib tr1 (fallback_insert rep) of
                   None \<Rightarrow>
                     reinsert lib reps
                       (tr1 @ [fallback_insert rep, Log (InsertedFallback converted rect)])
                 | Some e2 \<Rightarrow> Inl (e2, tr1 @ [fallback_insert rep]))))"

definition process_page :: "pdf_library \<Rightarrow> page_dict \<Rightarrow> event list \<Rightarrow> unit outcome" where
  "process_page lib pd tr =
     (let blocks = (case pd of None \<Rightarrow> [] | Some bs \<Rightarrow> bs)
      in case scan_blocks blocks [] (tr @ [Log ProcessingPage, GetText]) of
           Inl x \<Rightarrow> Inl x
         | Inr (replacements, tr1) \<Rightarrow>
             if replacements \<noteq> []
             then reinsert lib replacements
                    (add_redactions replacements (tr1 @ [Log ApplyingRedactions])
                       @ [ApplyRedactions, Log Reinserting])
             else Inr ((), tr1))"

text \<open>The loop over the pages: an exception ends it.\<close>

fun process_pages :: "pdf_library \<Rightarrow> page_dict list \<Rightarrow> event list \<Rightarrow> unit outcome" where
  "process_pages lib [] tr = Inr ((), tr)"
| "process_pages lib (pd # pds) tr =
     (case process_page lib pd tr of
        Inl x \<Rightarrow> Inl x
      | Inr (u, tr') \<Rightarrow> process_pages lib pds tr')"

section \<open>The statements of the specification\<close>

text \<open>
  The specification's rule for the split, in its own words: the base number is what stands
  before the first \<open>+\<close> and the tolerance is everything from that \<open>+\<close> on; without a
  \<open>+\<close> the same with the first \<open>-\<close>; without either the whole token is the base.
\<close>

definition spec_split :: "string \<Rightarrow> string \<times> string" where
  "spec_split text =
     (if CHR ''+'' \<in> set text
      then (takeWhile (\<lambda>c. c \<noteq> CHR ''+'') text, dropWhile (\<lambda>c. c \<noteq> CHR ''+'') text)
      else if CHR ''-'' \<in> set text
      then (takeWhile (\<lambda>c. c \<noteq> CHR ''-'') text, dropWhile (\<lambda>c. c \<noteq> CHR ''-'') text)
      else (text, []))"

text \<open>
  The specification's precision: the number of digits after the decimal point of the base
  number, 4 without a decimal point.
\<close>

definition spec_precision :: "string \<Rightarrow> nat" where
  "spec_precision base_number =
     (if CHR ''.'' \<in> set base_number
      then length (filter is_digit (tl (dropWhile (\<lambda>c. c \<noteq> CHR ''.'') base_number)))
      else 4)"

text \<open>What follows the first decimal point, up to a second one.\<close>

definition after_point :: "string \<Rightarrow> string" where
  "after_point base_number =
     takeWhile (\<lambda>c. c \<noteq> CHR ''.'') (tl (dropWhile (\<lambda>c. c \<noteq> CHR ''.'') base_number))"

text \<open>The groups of a page in reading order, and what a group is converted to.\<close>

definition page_groups :: "pdf_block list \<Rightarrow> group list" where
  "page_groups blocks =
     concat (map (\<lambda>l. group_numeric_spans l default_gap)
       (concat (map (\<lambda>b. case b of None \<Rightarrow> [] | Some ls \<Rightarrow> ls) blocks)))"

definition converted_text :: "group \<Rightarrow> string" where
  "converted_text g = (case replacement_function (g_text g) of Inl e \<Rightarrow> g_text g | Inr c \<Rightarrow> c)"

definition record_of :: "group \<Rightarrow> replacement" where
  "record_of g = (g_bbox g, converted_text g, g_font g, g_size g, g_color g)"


fun is_log :: "event \<Rightarrow> bool" where
  "is_log (Log m) = True"
| "is_log e = False"


section \<open>Example inputs\<close>

text \<open>A span with a text and the horizontal extent of its box.\<close>

definition ex_span :: "string \<Rightarrow> rat \<Rightarrow> rat \<Rightarrow> span" where
  "ex_span t l r =
     \<lparr>sp_text = Some t,
      sp_bbox = \<lparr>b_x0 = Fin l, b_y0 = Fin 0, b_x1 = Fin r, b_y1 = Fin 10\<rparr>,
      sp_font = ''Arial'', sp_size = Fin 10, sp_color = None\<rparr>"

text \<open>A replacement record.\<close>

definition ex_rep :: replacement where
  "ex_rep = (\<lparr>b_x0 = Fin 0, b_y0 = Fin 0, b_x1 = Fin 10, b_y1 = Fin 10\<rparr>, ''1.00'', ''Arial'',
             Fin 10, ColorRGB 0 0 0)"

section \<open>Evaluation\<close>

text \<open>Facts with which the simplifier evaluates the definitions on literals.\<close>

declare bit_length.simps [simp del] show_nat.simps [simp del]
text \<open>Floor and ceiling of a quotient of numerals.\<close>

lemma floor_num_div: "\<lfloor>numeral a / numeral b :: rat\<rfloor> = numeral a div numeral b"
  by (metis floor_divide_of_int_eq of_int_numeral)
lemma floor_one_div: "\<lfloor>1 / numeral b :: rat\<rfloor> = 1 div numeral b"
  by (metis floor_divide_of_int_eq of_int_numeral of_int_1)
lemma ceiling_num_div: "\<lceil>numeral a / numeral b :: rat\<rceil> = - (- numeral a div numeral b)"
  by (metis ceiling_def floor_divide_of_int_eq of_int_numeral of_int_minus minus_divide_left)
lemma ceiling_one_div: "\<lceil>1 / numeral b :: rat\<rceil> = - (- 1 div numeral b)"
  by (metis ceiling_def floor_divide_of_int_eq of_int_numeral of_int_minus minus_divide_left of_int_1)
lemma replicate_num: "replicate (numeral k) x = x # replicate (pred_numeral k) x"
  by (simp add: numeral_eq_Suc)
lemmas fl = fround_def round_pos_def floor_log2_def round_half_even_def Let_def pow2_def bit_length.simps
  floor_num_div floor_one_div ceiling_num_div ceiling_one_div
lemmas ev = fl float_div_def format_fixed_def fixed_digits_def show_nat.simps digit_char_def
  py_float_def to_ascii_def strip_underscores_def c_strip_def c_space_def parse_decimal_def
  is_digit_def parse_exponent_def digits_val_def digit_of_def pow10_def py_lower_def ascii_lower_def
  upper_chars_def lower_chars_def convert_value_def replicate_num
lemmas rxs = re_match_dollar_def re_search_def number_pattern_def numeric_pattern_def gdt_pattern_def
  rx_digit_def rx_opt_def rx_plus_def

section \<open>Properties of the splitting step\<close>

lemma str_split_not_Nil: "str_split sep s \<noteq> []"
  by (induction s) (auto split: list.splits)

lemma str_join_split: "str_join [sep] (str_split sep s) = s"
proof (induction s)
  case Nil
  then show ?case by simp
next
  case (Cons c cs)
  obtain p ps where ps: "str_split sep cs = p # ps"
    using str_split_not_Nil [of sep cs] by (cases "str_split sep cs") auto
  show ?case
  proof (cases "c = sep")
    case True
    with Cons ps show ?thesis by simp
  next
    case False
    with Cons ps show ?thesis by (cases ps) auto
  qed
qed

lemma hd_join_tl:
  assumes "length ps > 1"
  shows "hd ps @ [sep] @ str_join [sep] (tl ps) = str_join [sep] ps"
proof -
  from assms obtain p q qs where "ps = p # q # qs"
    by (cases ps; cases "tl ps") auto
  then show ?thesis by simp
qed

lemma split_token_concat: "fst (split_token t) @ snd (split_token t) = t"
  unfolding split_token_def Let_def
  using hd_join_tl [of "str_split (CHR ''+'') t" "CHR ''+''"]
        hd_join_tl [of "str_split (CHR ''-'') t" "CHR ''-''"]
  by (simp add: str_join_split)

section \<open>Properties of the patterns and of trimming\<close>

lemma match_Nul: "rx_match Nul s = False"
  by (induction s) auto

lemma match_Alt: "rx_match (Alt a b) s = (rx_match a s \<or> rx_match b s)"
  by (induction s arbitrary: a b) auto

lemma match_Seq_Nul: "rx_match (Seq Nul r) s = False"
  by (induction s) auto

lemma match_Seq_Eps: "rx_match (Seq Eps r) s = rx_match r s"
  by (cases s) (auto simp: match_Alt match_Seq_Nul)

lemma match_Star_Cls: "rx_match (Star (Cls cs)) s = (set s \<subseteq> set cs)"
  by (induction s) (auto simp: match_Seq_Eps match_Seq_Nul)

lemma match_plus_Cls: "rx_match (rx_plus (Cls cs)) s = (s \<noteq> [] \<and> set s \<subseteq> set cs)"
  by (cases s) (auto simp: rx_plus_def match_Seq_Eps match_Seq_Nul match_Star_Cls)

lemma strip_Cons:
  "str_strip s =
     (case dropWhile is_space s of [] \<Rightarrow> [] | a # t \<Rightarrow> a # rev (dropWhile is_space (rev t)))"
proof (cases "dropWhile is_space s")
  case Nil
  show ?thesis unfolding str_strip_def Nil by simp
next
  case (Cons a t)
  then have "\<not> is_space a"
    using hd_dropWhile [of is_space s] by auto
  then have "dropWhile is_space (rev t @ [a]) = dropWhile is_space (rev t) @ [a]"
    by (simp add: dropWhile_append3)
  with Cons show ?thesis by (simp add: str_strip_def)
qed

lemma strip_ends:
  "str_strip s = [] \<or> (\<not> is_space (hd (str_strip s)) \<and> \<not> is_space (last (str_strip s)))"
proof (cases "dropWhile is_space s")
  case Nil
  show ?thesis unfolding str_strip_def Nil by simp
next
  case (Cons a t)
  then have a: "\<not> is_space a"
    using hd_dropWhile [of is_space s] by auto
  have s: "str_strip s = a # rev (dropWhile is_space (rev t))"
    using Cons by (simp add: strip_Cons)
  show ?thesis
  proof (cases "dropWhile is_space (rev t)")
    case Nil
    with s a show ?thesis by simp
  next
    case (Cons b u)
    then have "\<not> is_space b"
      using hd_dropWhile [of is_space "rev t"] by auto
    with s a Cons show ?thesis by simp
  qed
qed

lemma strip_fixed:
  assumes "t = [] \<or> (\<not> is_space (hd t) \<and> \<not> is_space (last t))"
  shows "str_strip t = t"
proof (cases t rule: rev_cases)
  case Nil
  then show ?thesis by (simp add: str_strip_def)
next
  case (snoc ys y)
  with assms have h: "\<not> is_space (hd t)" and l: "\<not> is_space y" by auto
  from snoc have "t \<noteq> []" by simp
  with h have d: "dropWhile is_space t = t" by (cases t) auto
  from l snoc have "dropWhile is_space (rev t) = rev t" by simp
  with d show ?thesis by (simp add: str_strip_def)
qed

lemma strip_idem: "str_strip (str_strip s) = str_strip s"
  by (rule strip_fixed) (rule strip_ends)

lemma is_space_LF: "is_space (CHR 0x0A)"
  by (simp add: is_space_def)

lemma numeric_stripped:
  assumes "is_numeric_text (str_strip s)"
  shows "str_strip s \<noteq> [] \<and> set (str_strip s) \<subseteq> set numeric_chars"
proof -
  let ?t = "str_strip s"
  from assms have m: "re_match_dollar numeric_pattern ?t"
    by (simp add: is_numeric_text_def strip_idem)
  have "\<not> (?t \<noteq> [] \<and> last ?t = CHR 0x0A)"
    using strip_ends [of s] is_space_LF by auto
  with m have "rx_match numeric_pattern ?t"
    by (auto simp: re_match_dollar_def)
  then show ?thesis
    by (simp add: numeric_pattern_def match_plus_Cls)
qed


section \<open>Properties of the grouping\<close>







lemma group_step_texts:
  assumes "\<forall>g \<in> set (fst st). g_text g \<noteq> [] \<and> set (g_text g) \<subseteq> set numeric_chars"
  shows "\<forall>g \<in> set (fst (group_step thr st sp)).
           g_text g \<noteq> [] \<and> set (g_text g) \<subseteq> set numeric_chars"
proof (cases st)
  case (Pair gs cur)
  let ?txt = "span_text sp"
  let ?P = "\<lambda>g. g_text g \<noteq> [] \<and> set (g_text g) \<subseteq> set numeric_chars"
  from assms Pair have old: "\<forall>g \<in> set gs. ?P g" by simp
  show ?thesis
  proof (cases "?txt = [] \<or> \<not> is_numeric_text ?txt")
    case True
    then have "fst (group_step thr st sp) = gs"
      using Pair by (auto simp: group_step_def Let_def)
    with old show ?thesis by simp
  next
    case False
    then have n: "is_numeric_text ?txt" and ne: "?txt \<noteq> []" by auto
    have num: "?txt \<noteq> [] \<and> set ?txt \<subseteq> set numeric_chars"
      using n unfolding span_text_def by (rule numeric_stripped)
    have new: "?P (new_group ?txt sp)"
      using num by (simp add: new_group_def)
    have mrg: "\<And>g. ?P g \<Longrightarrow> ?P (merge_span g ?txt sp)"
      using num by (simp add: merge_span_def)
    have fresh: "\<forall>g \<in> set (gs @ [new_group ?txt sp]). ?P g"
      using old new by simp
    have upd: "\<And>i. \<forall>g \<in> set (gs[i := merge_span (gs ! i) ?txt sp]). ?P g"
    proof
      fix i g
      assume g: "g \<in> set (gs[i := merge_span (gs ! i) ?txt sp])"
      show "?P g"
      proof (cases "i < length gs")
        case True
        then have "?P (gs ! i)" using old by simp
        then have "?P (merge_span (gs ! i) ?txt sp)" by (rule mrg)
        moreover from g have "g = merge_span (gs ! i) ?txt sp \<or> g \<in> set gs"
          using set_update_subset_insert [of gs i] by blast
        ultimately show ?thesis using old by blast
      next
        case False
        then have "gs[i := merge_span (gs ! i) ?txt sp] = gs"
          by (simp add: list_update_beyond)
        with g old show ?thesis by simp
      qed
    qed
    have "fst (group_step thr st sp) = gs @ [new_group ?txt sp] \<or>
          (\<exists>i. fst (group_step thr st sp) = gs[i := merge_span (gs ! i) ?txt sp])"
      using Pair n ne by (auto simp: group_step_def Let_def split: option.splits)
    with fresh upd show ?thesis by metis
  qed
qed

lemma group_loop_texts:
  assumes "\<forall>g \<in> set (fst st). g_text g \<noteq> [] \<and> set (g_text g) \<subseteq> set numeric_chars"
  shows "\<forall>g \<in> set (fst (group_loop thr st sps)).
           g_text g \<noteq> [] \<and> set (g_text g) \<subseteq> set numeric_chars"
  using assms
proof (induction sps arbitrary: st)
  case Nil
  then show ?case by simp
next
  case (Cons sp sps)
  from Cons.prems have "\<forall>g \<in> set (fst (group_step thr st sp)).
           g_text g \<noteq> [] \<and> set (g_text g) \<subseteq> set numeric_chars"
    by (rule group_step_texts)
  then show ?case using Cons.IH by simp
qed

lemmas gev = group_numeric_spans_def group_step_def span_text_def str_strip_def is_space_def
  is_numeric_text_def numeric_chars_def rxs float_sub_def float_lt_def py_max_def fl
  new_group_def merge_span_def default_gap_def ex_span_def





section \<open>Properties of the conversion\<close>

lemma split_prefix:
  "sep \<notin> set pre \<Longrightarrow> str_split sep (pre @ sep # rest) = pre # str_split sep rest"
  by (induction pre) auto

lemma split_no_sep: "sep \<notin> set s \<Longrightarrow> str_split sep s = [s]"
  by (induction s) auto

lemma split_at_first:
  assumes "sep \<in> set s"
  shows "str_split sep s =
           takeWhile (\<lambda>c. c \<noteq> sep) s # str_split sep (tl (dropWhile (\<lambda>c. c \<noteq> sep) s))"
proof -
  let ?pre = "takeWhile (\<lambda>c. c \<noteq> sep) s" and ?post = "dropWhile (\<lambda>c. c \<noteq> sep) s"
  from assms have ne: "?post \<noteq> []" by (simp add: dropWhile_eq_Nil_conv)
  then have "hd ?post = sep" using hd_dropWhile [of "\<lambda>c. c \<noteq> sep" s] by simp
  with ne have post: "?post = sep # tl ?post" by (cases ?post) auto
  have "sep \<notin> set ?pre" using set_takeWhileD by fastforce
  then have "str_split sep (?pre @ sep # tl ?post) = ?pre # str_split sep (tl ?post)"
    by (rule split_prefix)
  with post show ?thesis by (metis takeWhile_dropWhile_id)
qed

lemma split_token_spec: "split_token text = spec_split text"
proof -
  have a: "sep \<in> set s \<Longrightarrow>
      1 < length (str_split sep s) \<and> hd (str_split sep s) = takeWhile (\<lambda>c. c \<noteq> sep) s \<and>
      sep # str_join [sep] (tl (str_split sep s)) = dropWhile (\<lambda>c. c \<noteq> sep) s" for sep s
  proof -
    assume in_s: "sep \<in> set s"
    let ?pre = "takeWhile (\<lambda>c. c \<noteq> sep) s" and ?post = "dropWhile (\<lambda>c. c \<noteq> sep) s"
    have sp: "str_split sep s = ?pre # str_split sep (tl ?post)"
      using in_s by (rule split_at_first)
    have len: "1 < length (str_split sep s)"
      using sp str_split_not_Nil [of sep "tl ?post"] by (cases "str_split sep (tl ?post)") auto
    have "hd (str_split sep s) @ [sep] @ str_join [sep] (tl (str_split sep s)) = s"
      using hd_join_tl [OF len, of sep] by (simp add: str_join_split)
    with sp have "?pre @ (sep # str_join [sep] (tl (str_split sep s))) = ?pre @ ?post"
      by simp
    then have "sep # str_join [sep] (tl (str_split sep s)) = ?post"
      by (simp only: same_append_eq)
    with len sp show ?thesis by simp
  qed
  have b: "sep \<notin> set s \<Longrightarrow> \<not> 1 < length (str_split sep s)" for sep s
    by (simp add: split_no_sep)
  show ?thesis
    using a [of "CHR ''+''" "text"] a [of "CHR ''-''" "text"] b [of "CHR ''+''" "text"]
      b [of "CHR ''-''" "text"]
    by (auto simp: split_token_def spec_split_def Let_def)
qed


lemma takeWhile_no_sep: "sep \<notin> set s \<Longrightarrow> takeWhile (\<lambda>c. c \<noteq> sep) s = s"
  by (induction s) auto

lemma split_hd: "hd (str_split sep s) = takeWhile (\<lambda>c. c \<noteq> sep) s"
proof (cases "sep \<in> set s")
  case True
  then show ?thesis by (simp add: split_at_first)
next
  case False
  then show ?thesis by (simp add: split_no_sep takeWhile_no_sep)
qed

lemma base_precision_chars:
  "base_precision b = (if CHR ''.'' \<in> set b then length (after_point b) else 4)"
proof (cases "CHR ''.'' \<in> set b")
  case True
  let ?rest = "tl (dropWhile (\<lambda>c. c \<noteq> CHR ''.'') b)"
  have sp: "str_split (CHR ''.'') b =
      takeWhile (\<lambda>c. c \<noteq> CHR ''.'') b # str_split (CHR ''.'') ?rest"
    using True by (rule split_at_first)
  have ne: "str_split (CHR ''.'') ?rest \<noteq> []" by (rule str_split_not_Nil)
  then have len: "1 < length (str_split (CHR ''.'') b)"
    unfolding sp by (cases "str_split (CHR ''.'') ?rest") simp_all
  have "str_split (CHR ''.'') b ! 1 = hd (str_split (CHR ''.'') ?rest)"
    unfolding sp using ne by (cases "str_split (CHR ''.'') ?rest") simp_all
  then have "str_split (CHR ''.'') b ! 1 = after_point b"
    by (simp only: split_hd after_point_def)
  with len True show ?thesis
    by (simp only: base_precision_def Let_def if_True)
next
  case False
  then have "str_split (CHR ''.'') b = [b]" by (rule split_no_sep)
  with False show ?thesis by (simp add: base_precision_def)
qed

lemma digits_after_point:
  assumes "list_all is_digit (tl (dropWhile (\<lambda>c. c \<noteq> CHR ''.'') b))"
  shows "base_precision b = spec_precision b"
proof -
  let ?rest = "tl (dropWhile (\<lambda>c. c \<noteq> CHR ''.'') b)"
  have "\<not> is_digit (CHR ''.'')" by (simp add: is_digit_def)
  with assms have "CHR ''.'' \<notin> set ?rest"
    unfolding list_all_iff by blast
  then have t: "after_point b = ?rest"
    unfolding after_point_def by (rule takeWhile_no_sep)
  from assms have f: "filter is_digit ?rest = ?rest"
    unfolding list_all_iff by (metis filter_True)
  show ?thesis
    by (simp only: base_precision_chars spec_precision_def t f)
qed

lemma factor_mm: "fround (127 / 5) = Fin (3574732204225331 / 140737488355328)"
  by (simp add: fl)

lemma factor_cm: "fround (127 / 50) = Fin (2859785763380265 / 1125899906842624)"
  by (simp add: fl)

lemma float_div_Fin: "q \<noteq> 0 \<Longrightarrow> \<exists>r. float_div v (Fin q) = Inr r"
  by (simp add: float_div_def)

lemma convert_value_Inl:
  assumes "convert_value b u p = Inl e"
  shows "e = ValueError \<and> 2147483647 < p"
proof (cases "py_float b")
  case None
  with assms show ?thesis by (simp add: convert_value_def)
next
  case (Some v)
  define factor where "factor = (if py_lower u = ''mm'' then fround (127 / 5) else fround (127 / 50))"
  have "factor = Fin (3574732204225331 / 140737488355328) \<or>
      factor = Fin (2859785763380265 / 1125899906842624)"
    unfolding factor_def by (simp only: factor_mm factor_cm split: if_split) blast
  moreover have "(3574732204225331 / 140737488355328 :: rat) \<noteq> 0"
    and "(2859785763380265 / 1125899906842624 :: rat) \<noteq> 0" by simp_all
  ultimately obtain q where q: "q \<noteq> 0" "factor = Fin q" by blast
  obtain r where r: "float_div v factor = Inr r"
    using float_div_Fin [OF q(1), of v] q(2) by auto
  from assms have "format_fixed r p = Inl e"
    unfolding convert_value_def Some Let_def factor_def [symmetric] by (simp add: r)
  then show ?thesis
    by (simp add: format_fixed_def split: if_splits)
qed

lemma replacement_function_cases:
  "replacement_function text =
     (if CHR 0xB0 \<in> set text \<or> re_search gdt_pattern text then Inr text
      else case convert_value (fst (split_token text)) ''mm''
                  (base_precision (fst (split_token text))) of
             Inr converted \<Rightarrow> Inr (converted @ snd (split_token text))
           | Inl e \<Rightarrow> Inr text)"
proof -
  define cv where "cv = convert_value (fst (split_token text)) ''mm''
                  (base_precision (fst (split_token text)))"
  have "cv = Inl ValueError \<or> (\<exists>c. cv = Inr c)"
  proof (cases cv)
    case (Inl e)
    then show ?thesis using convert_value_Inl [of _ _ _ e] unfolding cv_def by blast
  next
    case (Inr c)
    then show ?thesis by blast
  qed
  then show ?thesis
    unfolding replacement_function_def Let_def split_beta cv_def [symmetric]
    by auto
qed

lemma replacement_function_total: "\<exists>r. replacement_function text = Inr r"
  unfolding replacement_function_cases by (simp split: sum.splits)

lemma split_length: "(1 < length (str_split sep s)) = (sep \<in> set s)"
proof (cases "sep \<in> set s")
  case True
  then show ?thesis
    using str_split_not_Nil [of sep "tl (dropWhile (\<lambda>c. c \<noteq> sep) s)"]
    by (cases "str_split sep (tl (dropWhile (\<lambda>c. c \<noteq> sep) s))")
       (simp_all add: split_at_first)
next
  case False
  then show ?thesis by (simp add: split_no_sep)
qed

lemma replacement_function_unparsed:
  assumes "py_float (fst (split_token t)) = None"
  shows "replacement_function t = Inr t"
proof -
  from assms have "convert_value (fst (split_token t)) ''mm'' (base_precision (fst (split_token t)))
      = Inr (fst (split_token t))"
    by (simp add: convert_value_def)
  then show ?thesis
    by (simp add: replacement_function_cases split_token_concat)
qed

section \<open>Properties of the processing of a page\<close>

lemma record_of_converted:
  "replacement_function (g_text g) = Inr c \<Longrightarrow>
     record_of g = (g_bbox g, c, g_font g, g_size g, g_color g) \<and> converted_text g = c"
  by (simp add: record_of_def converted_text_def)

lemma scan_groups_result:
  "\<exists>evs. scan_groups gs reps tr =
      Inr (reps @ map record_of
             (filter (\<lambda>g. re_match_dollar number_pattern (g_text g) \<and>
                          converted_text g \<noteq> g_text g) gs),
           tr @ evs) \<and> list_all is_log evs"
proof (induction gs arbitrary: reps tr)
  case Nil
  then show ?case by simp
next
  case (Cons g gs)
  let ?tr1 = "tr @ [Log (GroupedNumeric (g_text g) (g_bbox g))]"
  obtain c where c: "replacement_function (g_text g) = Inr c"
    using replacement_function_total [of "g_text g"] by blast
  note rc = record_of_converted [OF c]
  show ?case
  proof (cases "re_match_dollar number_pattern (g_text g) \<and> c \<noteq> g_text g")
    case True
    obtain evs where "scan_groups gs (reps @ [record_of g])
          (?tr1 @ [Log (Replacing (g_text g) c)]) =
        Inr ((reps @ [record_of g]) @ map record_of
             (filter (\<lambda>g. re_match_dollar number_pattern (g_text g) \<and>
                          converted_text g \<noteq> g_text g) gs),
           (?tr1 @ [Log (Replacing (g_text g) c)]) @ evs)" and "list_all is_log evs"
      using Cons.IH by blast
    with True c rc show ?thesis
      by (simp add: Let_def)
  next
    case False
    obtain evs where "scan_groups gs reps ?tr1 =
        Inr (reps @ map record_of
             (filter (\<lambda>g. re_match_dollar number_pattern (g_text g) \<and>
                          converted_text g \<noteq> g_text g) gs),
           ?tr1 @ evs)" and "list_all is_log evs"
      using Cons.IH by blast
    with False c rc show ?thesis
      by (auto simp: Let_def)
  qed
qed

lemma scan_lines_result:
  "\<exists>evs. scan_lines ls reps tr =
      Inr (reps @ map record_of
             (filter (\<lambda>g. re_match_dollar number_pattern (g_text g) \<and>
                          converted_text g \<noteq> g_text g)
                (concat (map (\<lambda>l. group_numeric_spans l default_gap) ls))),
           tr @ evs) \<and> list_all is_log evs"
proof (induction ls arbitrary: reps tr)
  case Nil
  then show ?case by simp
next
  case (Cons l ls)
  let ?keep = "\<lambda>g. re_match_dollar number_pattern (g_text g) \<and> converted_text g \<noteq> g_text g"
  obtain evs1 where 1: "scan_groups (group_numeric_spans l default_gap) reps tr =
      Inr (reps @ map record_of (filter ?keep (group_numeric_spans l default_gap)), tr @ evs1)"
    and l1: "list_all is_log evs1"
    using scan_groups_result by blast
  obtain evs2 where 2: "scan_lines ls
        (reps @ map record_of (filter ?keep (group_numeric_spans l default_gap))) (tr @ evs1) =
      Inr ((reps @ map record_of (filter ?keep (group_numeric_spans l default_gap))) @
             map record_of (filter ?keep
                (concat (map (\<lambda>l. group_numeric_spans l default_gap) ls))),
           (tr @ evs1) @ evs2)"
    and l2: "list_all is_log evs2"
    using Cons.IH by blast
  have "scan_lines (l # ls) reps tr =
      Inr (reps @ map record_of (filter ?keep
             (concat (map (\<lambda>l. group_numeric_spans l default_gap) (l # ls)))),
           tr @ (evs1 @ evs2))"
    by (simp add: 1 2)
  moreover have "list_all is_log (evs1 @ evs2)" using l1 l2 by simp
  ultimately show ?case by blast
qed

lemma scan_blocks_result:
  "\<exists>evs. scan_blocks bs reps tr =
      Inr (reps @ map record_of
             (filter (\<lambda>g. re_match_dollar number_pattern (g_text g) \<and>
                          converted_text g \<noteq> g_text g) (page_groups bs)),
           tr @ evs) \<and> list_all is_log evs"
proof (induction bs arbitrary: reps tr)
  case Nil
  then show ?case by (simp add: page_groups_def)
next
  case (Cons b bs)
  let ?keep = "\<lambda>g. re_match_dollar number_pattern (g_text g) \<and> converted_text g \<noteq> g_text g"
  show ?case
  proof (cases b)
    case None
    then have "page_groups (b # bs) = page_groups bs" by (simp add: page_groups_def)
    with None Cons.IH [of reps tr] show ?thesis by simp
  next
    case (Some ls)
    let ?gl = "concat (map (\<lambda>l. group_numeric_spans l default_gap) ls)"
    have pg: "page_groups (b # bs) = ?gl @ page_groups bs"
      using Some by (simp add: page_groups_def)
    obtain evs1 where 1: "scan_lines ls reps tr =
        Inr (reps @ map record_of (filter ?keep ?gl), tr @ evs1)"
      and l1: "list_all is_log evs1"
      using scan_lines_result by blast
    obtain evs2 where 2: "scan_blocks bs (reps @ map record_of (filter ?keep ?gl)) (tr @ evs1) =
        Inr ((reps @ map record_of (filter ?keep ?gl)) @
               map record_of (filter ?keep (page_groups bs)),
             (tr @ evs1) @ evs2)"
      and l2: "list_all is_log evs2"
      using Cons.IH by blast
    have "scan_blocks (b # bs) reps tr =
        Inr (reps @ map record_of (filter ?keep (page_groups (b # bs))), tr @ (evs1 @ evs2))"
      unfolding pg by (simp add: Some 1 2)
    moreover have "list_all is_log (evs1 @ evs2)" using l1 l2 by simp
    ultimately show ?thesis by blast
  qed
qed


lemma add_redactions_trace:
  "add_redactions reps tr = tr @ map (\<lambda>r. AddRedactAnnot (fst r) white) reps"
proof (induction reps arbitrary: tr)
  case Nil
  then show ?case by simp
next
  case (Cons r reps)
  obtain rect converted font fsize col where "r = (rect, converted, font, fsize, col)"
    by (cases r) auto
  with Cons show ?case by simp
qed



lemma process_page_result:
  "\<exists>evs. list_all is_log evs \<and>
     process_page lib pd tr =
       (let reps = map record_of
              (filter (\<lambda>g. re_match_dollar number_pattern (g_text g) \<and>
                           converted_text g \<noteq> g_text g)
                 (page_groups (case pd of None \<Rightarrow> [] | Some bs \<Rightarrow> bs)))
        in if reps = [] then Inr ((), tr @ [Log ProcessingPage, GetText] @ evs)
           else reinsert lib reps
                  (tr @ [Log ProcessingPage, GetText] @ evs @ [Log ApplyingRedactions] @
                   map (\<lambda>r. AddRedactAnnot (fst r) white) reps @
                   [ApplyRedactions, Log Reinserting]))"
proof -
  let ?blocks = "case pd of None \<Rightarrow> [] | Some bs \<Rightarrow> bs"
  let ?tr0 = "tr @ [Log ProcessingPage, GetText]"
  let ?reps = "map record_of
              (filter (\<lambda>g. re_match_dollar number_pattern (g_text g) \<and>
                           converted_text g \<noteq> g_text g) (page_groups ?blocks))"
  obtain evs where scan: "scan_blocks ?blocks [] ?tr0 = Inr (?reps, ?tr0 @ evs)"
    and logs: "list_all is_log evs"
    using scan_blocks_result [of ?blocks "[]" ?tr0] by auto
  have "process_page lib pd tr =
      (if ?reps = [] then Inr ((), tr @ [Log ProcessingPage, GetText] @ evs)
       else reinsert lib ?reps
              (tr @ [Log ProcessingPage, GetText] @ evs @ [Log ApplyingRedactions] @
               map (\<lambda>r. AddRedactAnnot (fst r) white) ?reps @
               [ApplyRedactions, Log Reinserting]))"
    unfolding process_page_def Let_def scan by (simp add: add_redactions_trace)
  with logs show ?thesis unfolding Let_def by blast
qed

section \<open>The claims of the specification\<close>






text \<open>
  C2: the box of a group is not always the union of the boxes of its spans. On a merge
  the right edge of the group becomes the right edge of the merged span, also when that
  lies to the left of the right edge the group had: of two overlapping spans from 0 to 10
  and from 2 to 5 the group keeps the box from 0 to 5, which does not include the first
  span.
\<close>

theorem merged_box_right_edge:
  "group_numeric_spans [ex_span ''1'' 0 10, ex_span ''2'' 2 5] default_gap =
     [\<lparr>g_text = ''12'',
       g_bbox = \<lparr>b_x0 = Fin 0, b_y0 = Fin 0, b_x1 = Fin 5, b_y1 = Fin 10\<rparr>,
       g_font = ''Arial'', g_size = Fin 10, g_color = ColorRGB 0 0 0\<rparr>] \<and>
   b_x1 (sp_bbox (ex_span ''1'' 0 10)) = Fin 10 \<and>
   float_lt (Fin 5) (Fin 10)"
  by (simp add: gev)


text \<open>
  C3, as the specification states it, fails for a group whose text is not a complete
  number: the text \<open>5.\<close> is converted to \<open>0\<close> by \<open>replacement_function\<close>, which
  differs from the text, yet the page gets no replacement record, because only a group
  whose text matches the pattern of a complete number is passed to the conversion.
\<close>

theorem record_filter_counterexample:
  "page_groups [Some [[ex_span ''5.'' 0 10]]] = [new_group ''5.'' (ex_span ''5.'' 0 10)] \<and>
   g_text (new_group ''5.'' (ex_span ''5.'' 0 10)) = ''5.'' \<and>
   replacement_function ''5.'' = Inr ''0'' \<and>
   \<not> re_match_dollar number_pattern ''5.'' \<and>
   scan_blocks [Some [[ex_span ''5.'' 0 10]]] [] [] =
     Inr ([], [Log (GroupedNumeric ''5.''
                 \<lparr>b_x0 = Fin 0, b_y0 = Fin 0, b_x1 = Fin 10, b_y1 = Fin 10\<rparr>)])"
proof -
  have a: "group_numeric_spans [ex_span ''5.'' 0 10] default_gap =
      [new_group ''5.'' (ex_span ''5.'' 0 10)]"
    by (simp add: gev)
  have b: "\<not> re_match_dollar number_pattern ''5.''"
    by (simp add: rxs Let_def)
  have c: "replacement_function ''5.'' = Inr ''0''"
    by (simp add: replacement_function_def split_token_def base_precision_def rxs ev)
  have d: "g_text (new_group ''5.'' (ex_span ''5.'' 0 10)) = ''5.''"
    "g_bbox (new_group ''5.'' (ex_span ''5.'' 0 10)) =
       \<lparr>b_x0 = Fin 0, b_y0 = Fin 0, b_x1 = Fin 10, b_y1 = Fin 10\<rparr>"
    by (simp_all add: new_group_def ex_span_def)
  show ?thesis
    by (simp add: page_groups_def a b c d Let_def)
qed

text \<open>
  C3, amended: while a page is scanned, a replacement record (bounding box, converted
  text, font name, font size, color) is produced, in reading order, for every group whose
  text matches the pattern of a complete number and whose conversion result differs from
  its text, and for no other group; the scan itself does nothing but write log lines, and
  it does not fail. These records are the ones that the page is then redacted and
  written with.
\<close>

theorem replacement_records:
  "(\<exists>evs. scan_blocks blocks [] tr =
       Inr (map record_of
              (filter (\<lambda>g. re_match_dollar number_pattern (g_text g) \<and>
                           converted_text g \<noteq> g_text g) (page_groups blocks)),
            tr @ evs) \<and> list_all is_log evs) \<and>
   (\<exists>c. replacement_function (g_text g) = Inr c \<and> converted_text g = c \<and>
        record_of g = (g_bbox g, c, g_font g, g_size g, g_color g)) \<and>
   (\<exists>evs. list_all is_log evs \<and>
      process_page lib (Some blocks) tr =
        (let reps = map record_of
               (filter (\<lambda>g. re_match_dollar number_pattern (g_text g) \<and>
                            converted_text g \<noteq> g_text g) (page_groups blocks))
         in if reps = [] then Inr ((), tr @ [Log ProcessingPage, GetText] @ evs)
            else reinsert lib reps
                   (tr @ [Log ProcessingPage, GetText] @ evs @ [Log ApplyingRedactions] @
                    map (\<lambda>r. AddRedactAnnot (fst r) white) reps @
                    [ApplyRedactions, Log Reinserting])))"
proof -
  obtain c where "replacement_function (g_text g) = Inr c"
    using replacement_function_total [of "g_text g"] by blast
  then have "\<exists>c. replacement_function (g_text g) = Inr c \<and> converted_text g = c \<and>
        record_of g = (g_bbox g, c, g_font g, g_size g, g_color g)"
    using record_of_converted [of g c] by simp
  then show ?thesis
    using scan_blocks_result [of blocks "[]" tr] process_page_result [of lib "Some blocks" tr]
    by simp
qed

theorem replacement_records_witness:
  "page_groups [None, Some [[ex_span ''25.40'' 0 10, ex_span ''mm'' 11 20], [ex_span ''5.'' 0 10]]]
     = [new_group ''25.40'' (ex_span ''25.40'' 0 10), new_group ''5.'' (ex_span ''5.'' 0 10)] \<and>
   (\<exists>evs. scan_blocks
        [None, Some [[ex_span ''25.40'' 0 10, ex_span ''mm'' 11 20], [ex_span ''5.'' 0 10]]] [] [] =
      Inr ([(\<lparr>b_x0 = Fin 0, b_y0 = Fin 0, b_x1 = Fin 10, b_y1 = Fin 10\<rparr>, ''1.00'',
             ''Arial'', Fin 10, ColorRGB 0 0 0)], evs))"
proof -
  have a: "group_numeric_spans [ex_span ''25.40'' 0 10, ex_span ''mm'' 11 20] default_gap =
      [new_group ''25.40'' (ex_span ''25.40'' 0 10)]"
    "group_numeric_spans [ex_span ''5.'' 0 10] default_gap =
      [new_group ''5.'' (ex_span ''5.'' 0 10)]"
    by (simp_all add: gev)
  have b: "\<not> re_match_dollar number_pattern ''5.''" "re_match_dollar number_pattern ''25.40''"
    by (simp_all add: rxs Let_def)
  have c: "replacement_function ''25.40'' = Inr ''1.00''"
    by (simp add: replacement_function_def split_token_def base_precision_def rxs ev)
  have d: "page_groups
      [None, Some [[ex_span ''25.40'' 0 10, ex_span ''mm'' 11 20], [ex_span ''5.'' 0 10]]]
     = [new_group ''25.40'' (ex_span ''25.40'' 0 10), new_group ''5.'' (ex_span ''5.'' 0 10)]"
    by (simp add: page_groups_def a)
  have e: "record_of (new_group ''25.40'' (ex_span ''25.40'' 0 10)) =
      (\<lparr>b_x0 = Fin 0, b_y0 = Fin 0, b_x1 = Fin 10, b_y1 = Fin 10\<rparr>, ''1.00'',
             ''Arial'', Fin 10, ColorRGB 0 0 0)"
    "converted_text (new_group ''25.40'' (ex_span ''25.40'' 0 10)) = ''1.00''"
    "g_text (new_group ''25.40'' (ex_span ''25.40'' 0 10)) = ''25.40''"
    "g_text (new_group ''5.'' (ex_span ''5.'' 0 10)) = ''5.''"
    by (simp_all add: record_of_def converted_text_def new_group_def ex_span_def c)
  from replacement_records [of
      "[None, Some [[ex_span ''25.40'' 0 10, ex_span ''mm'' 11 20], [ex_span ''5.'' 0 10]]]"
      "[]" "new_group ''5.'' (ex_span ''5.'' 0 10)"]
  show ?thesis
    unfolding d using b e by auto
qed


text \<open>
  C4: \<open>replacement_function\<close> splits the token at the first \<open>+\<close> when there is one: the
  base number is what stands before it, the tolerance is \<open>+\<close> followed by the other parts
  between the \<open>+\<close> signs, joined with \<open>+\<close> again, which is everything from the first
  \<open>+\<close> on. Without a \<open>+\<close> the same holds for the first \<open>-\<close>, and without either the
  token is the base and the tolerance is empty. The tolerance is put behind the converted
  base as it is, so that \<open>10+0.5\<close> gives \<open>0.3937+0.5\<close>.
\<close>

theorem split_and_append:
  "(CHR ''+'' \<in> set t \<longrightarrow>
      split_token t = (hd (str_split (CHR ''+'') t),
                       ''+'' @ str_join ''+'' (tl (str_split (CHR ''+'') t)))) \<and>
   (CHR ''+'' \<notin> set t \<and> CHR ''-'' \<in> set t \<longrightarrow>
      split_token t = (hd (str_split (CHR ''-'') t),
                       ''-'' @ str_join ''-'' (tl (str_split (CHR ''-'') t)))) \<and>
   (CHR ''+'' \<notin> set t \<and> CHR ''-'' \<notin> set t \<longrightarrow> split_token t = (t, [])) \<and>
   split_token t = spec_split t \<and>
   (CHR 0xB0 \<notin> set t \<and> \<not> re_search gdt_pattern t \<longrightarrow>
      (\<forall>c. convert_value (fst (split_token t)) ''mm'' (base_precision (fst (split_token t)))
             = Inr c \<longrightarrow>
           replacement_function t = Inr (c @ snd (split_token t)))) \<and>
   replacement_function ''10+0.5'' = Inr ''0.3937+0.5''"
proof -
  have plus: "CHR ''+'' \<in> set t \<longrightarrow>
      split_token t = (hd (str_split (CHR ''+'') t),
                       ''+'' @ str_join ''+'' (tl (str_split (CHR ''+'') t)))"
    unfolding split_token_def Let_def split_length by simp
  have minus: "CHR ''+'' \<notin> set t \<and> CHR ''-'' \<in> set t \<longrightarrow>
      split_token t = (hd (str_split (CHR ''-'') t),
                       ''-'' @ str_join ''-'' (tl (str_split (CHR ''-'') t)))"
    unfolding split_token_def Let_def split_length by simp
  have none: "CHR ''+'' \<notin> set t \<and> CHR ''-'' \<notin> set t \<longrightarrow> split_token t = (t, [])"
    unfolding split_token_def Let_def split_length by simp
  have app: "CHR 0xB0 \<notin> set t \<and> \<not> re_search gdt_pattern t \<longrightarrow>
      (\<forall>c. convert_value (fst (split_token t)) ''mm'' (base_precision (fst (split_token t)))
             = Inr c \<longrightarrow>
           replacement_function t = Inr (c @ snd (split_token t)))"
    by (simp add: replacement_function_cases)
  have ex: "replacement_function ''10+0.5'' = Inr ''0.3937+0.5''"
    by (simp add: replacement_function_def split_token_def base_precision_def rxs ev)
  from plus minus none split_token_spec [of t] app ex show ?thesis by blast
qed

theorem split_and_append_witness:
  "split_token ''10+0.5'' = (''10'', ''+0.5'') \<and>
   spec_split ''10+0.5'' = (''10'', ''+0.5'') \<and>
   convert_value ''10'' ''mm'' (base_precision ''10'') = Inr ''0.3937'' \<and>
   replacement_function ''10+0.5'' = Inr (''0.3937'' @ ''+0.5'')"
proof -
  have a: "CHR ''+'' \<in> set ''10+0.5''" "CHR 0xB0 \<notin> set ''10+0.5''" by simp_all
  have b: "\<not> re_search gdt_pattern ''10+0.5''" by (simp add: rxs)
  have c: "hd (str_split (CHR ''+'') ''10+0.5'') = ''10''"
    "''+'' @ str_join ''+'' (tl (str_split (CHR ''+'') ''10+0.5'')) = ''+0.5''" by simp_all
  have d: "convert_value ''10'' ''mm'' (base_precision ''10'') = Inr ''0.3937''"
    by (simp add: base_precision_def ev)
  from split_and_append [of "''10+0.5''"] a b c d show ?thesis by auto
qed


text \<open>
  C5, as the specification states it, fails for a base number in exponent notation:
  \<open>2.5e1\<close> is the number 25 and has two digits after its decimal point, and the quotient
  formatted with two places is \<open>0.98\<close>; the program formats it with three places, the
  number of characters after the point, and returns \<open>0.984\<close>.
\<close>

theorem precision_exponent_counterexample:
  "py_float ''2.5e1'' = Some (Fin 25) \<and>
   float_div (Fin 25) (fround (127 / 5)) = Inr (Fin (277042299912063 / 281474976710656)) \<and>
   spec_precision ''2.5e1'' = 2 \<and>
   format_fixed (Fin (277042299912063 / 281474976710656)) 2 = Inr ''0.98'' \<and>
   base_precision ''2.5e1'' = 3 \<and>
   convert_value ''2.5e1'' ''mm'' (base_precision ''2.5e1'') = Inr ''0.984'' \<and>
   replacement_function ''2.5e1'' = Inr ''0.984''"
  by (simp add: replacement_function_def split_token_def base_precision_def
        spec_precision_def rxs ev)

text \<open>
  C5, amended: for every token that is converted (no degree sign, no digit, \<open>x\<close>, digit
  in it) and whose base number \<open>float\<close> accepts, the conversion divides the number by
  the float 25.4 and formats the quotient with as many decimal places as there are
  characters between the first decimal point of the base number and its next decimal point
  or its end, and with 4 places when the base number has no decimal point; the result is
  the formatted quotient followed by the tolerance. When only digits follow the decimal
  point, the number of places is the number of digits after the decimal point. The token
  \<open>25.40\<close> is converted to \<open>1.00\<close>.
\<close>

theorem precision_of_base:
  assumes "CHR 0xB0 \<notin> set t" and "\<not> re_search gdt_pattern t"
    and "split_token t = (b, tol)" and "py_float b = Some v"
  shows "(\<exists>q. float_div v (fround (127 / 5)) = Inr q \<and>
              convert_value b ''mm'' (base_precision b) = format_fixed q (base_precision b) \<and>
              replacement_function t =
                (case format_fixed q (base_precision b) of
                   Inr c \<Rightarrow> Inr (c @ tol)
                 | Inl e \<Rightarrow> Inr t)) \<and>
         base_precision b = (if CHR ''.'' \<in> set b then length (after_point b) else 4) \<and>
         (list_all is_digit (tl (dropWhile (\<lambda>c. c \<noteq> CHR ''.'') b)) \<longrightarrow>
            base_precision b = spec_precision b) \<and>
         replacement_function ''25.40'' = Inr ''1.00''"
proof -
  obtain q where q: "float_div v (fround (127 / 5)) = Inr q"
    using float_div_Fin [of "3574732204225331 / 140737488355328" v]
    unfolding factor_mm by auto
  have "py_lower ''mm'' = ''mm''"
    by (simp add: py_lower_def upper_chars_def lower_chars_def)
  with assms(4) q
  have cv: "convert_value b ''mm'' (base_precision b) = format_fixed q (base_precision b)"
    by (simp add: convert_value_def)
  have rf: "replacement_function t =
      (case format_fixed q (base_precision b) of Inr c \<Rightarrow> Inr (c @ tol) | Inl e \<Rightarrow> Inr t)"
    using assms(1,2) by (simp add: replacement_function_cases assms(3) cv split: sum.splits)
  have ex: "replacement_function ''25.40'' = Inr ''1.00''"
    by (simp add: replacement_function_def split_token_def base_precision_def rxs ev)
  from q cv rf ex show ?thesis
    using base_precision_chars [of b] digits_after_point [of b] by blast
qed

theorem precision_of_base_witness:
  "split_token ''25.40+0.1'' = (''25.40'', ''+0.1'') \<and>
   py_float ''25.40'' = Some (Fin (3574732204225331 / 140737488355328)) \<and>
   float_div (Fin (3574732204225331 / 140737488355328)) (fround (127 / 5)) = Inr (Fin 1) \<and>
   base_precision ''25.40'' = 2 \<and> spec_precision ''25.40'' = 2 \<and>
   after_point ''25.40'' = ''40'' \<and>
   convert_value ''25.40'' ''mm'' 2 = Inr ''1.00'' \<and>
   replacement_function ''25.40+0.1'' = Inr ''1.00+0.1''"
proof -
  have a: "py_float ''25.40'' = Some (Fin (3574732204225331 / 140737488355328))"
    by (simp add: ev)
  have b: "float_div (Fin (3574732204225331 / 140737488355328)) (fround (127 / 5)) = Inr (Fin 1)"
    by (simp add: ev)
  have c: "list_all is_digit (tl (dropWhile (\<lambda>c. c \<noteq> CHR ''.'') ''25.40''))"
    "after_point ''25.40'' = ''40''" "spec_precision ''25.40'' = 2"
    "format_fixed (Fin 1) 2 = Inr ''1.00''"
    by (simp_all add: is_digit_def after_point_def spec_precision_def ev)
  have d: "convert_value ''25.40'' ''mm'' 2 = Inr ''1.00''" "base_precision ''25.40'' = 2"
    by (simp_all add: base_precision_def ev)
  have e: "CHR 0xB0 \<notin> set ''25.40+0.1''" "\<not> re_search gdt_pattern ''25.40+0.1''"
    "split_token ''25.40+0.1'' = (''25.40'', ''+0.1'')"
    by (simp_all add: rxs split_token_def)
  from precision_of_base [OF e a] b c d e(3) show ?thesis using a by auto
qed


text \<open>
  C6: \<open>replacement_function\<close> returns the token as it is, character for character,
  whenever the token holds a degree sign, or the pattern digit, \<open>x\<close> or \<open>X\<close>, digit matches
  somewhere in it, or \<open>float\<close> rejects its base number.
\<close>

theorem replacement_unchanged:
  assumes "CHR 0xB0 \<in> set t \<or> re_search gdt_pattern t \<or> py_float (fst (split_token t)) = None"
  shows "replacement_function t = Inr t"
  using assms replacement_function_unparsed [of t]
  by (auto simp: replacement_function_def)

theorem replacement_unchanged_witness:
  "py_float (fst (split_token ''12.5.6'')) = None \<and>
   replacement_function ''12.5.6'' = Inr ''12.5.6'' \<and>
   re_search gdt_pattern ''4x10'' \<and> replacement_function ''4x10'' = Inr ''4x10'' \<and>
   replacement_function [CHR ''4'', CHR ''5'', CHR 0xB0] = Inr [CHR ''4'', CHR ''5'', CHR 0xB0]"
  using replacement_unchanged [of "''12.5.6''"] replacement_unchanged [of "''4x10''"]
    replacement_unchanged [of "[CHR ''4'', CHR ''5'', CHR 0xB0]"]
  by (simp add: split_token_def rxs ev)





text \<open>
  C8: for a replacement record, when the insertion with the font of the record succeeds,
  there is no second call. When it fails, the insertion is tried again once, with the font
  \<open>helv\<close> and the same rectangle, text, size and color. When this second call succeeds,
  the loop goes on with the next record; when it fails, its exception is not caught: it
  ends the loop with no further call, and an exception that leaves a page ends the loop
  over the pages.
\<close>

theorem fallback_once:
  assumes "rep = (rect, converted, font, fsize, col)"
    and "tr1 = tr @ [primary_insert rep, Log (FontFailed font e)]"
  shows "primary_insert rep = InsertTextbox rect converted font fsize col \<and>
    fallback_insert rep = InsertTextbox rect converted ''helv'' fsize col \<and>
    (lib tr (primary_insert rep) = None \<longrightarrow>
       reinsert lib (rep # reps) tr =
         reinsert lib reps (tr @ [primary_insert rep, Log (Inserted converted rect)])) \<and>
    (lib tr (primary_insert rep) = Some e \<and> lib tr1 (fallback_insert rep) = None \<longrightarrow>
       reinsert lib (rep # reps) tr =
         reinsert lib reps
           (tr1 @ [fallback_insert rep, Log (InsertedFallback converted rect)])) \<and>
    (lib tr (primary_insert rep) = Some e \<and> lib tr1 (fallback_insert rep) = Some e2 \<longrightarrow>
       reinsert lib (rep # reps) tr = Inl (e2, tr1 @ [fallback_insert rep])) \<and>
    (process_page lib pd tr0 = Inl x \<longrightarrow> process_pages lib (pd # pds) tr0 = Inl x)"
  unfolding assms
  by (simp add: primary_insert_def fallback_insert_def Let_def)

theorem fallback_once_witness:
  "fallback_insert ex_rep =
     InsertTextbox \<lparr>b_x0 = Fin 0, b_y0 = Fin 0, b_x1 = Fin 10, b_y1 = Fin 10\<rparr> ''1.00''
       ''helv'' (Fin 10) (ColorRGB 0 0 0) \<and>
   reinsert (\<lambda>t ev. None) [ex_rep] [] =
     Inr ((), [primary_insert ex_rep,
               Log (Inserted ''1.00'' \<lparr>b_x0 = Fin 0, b_y0 = Fin 0, b_x1 = Fin 10, b_y1 = Fin 10\<rparr>)]) \<and>
   reinsert (\<lambda>t ev. if ev = fallback_insert ex_rep then None else Some (LibraryError ''font''))
       [ex_rep] [] =
     Inr ((), [primary_insert ex_rep, Log (FontFailed ''Arial'' (LibraryError ''font'')),
               fallback_insert ex_rep,
               Log (InsertedFallback ''1.00''
                      \<lparr>b_x0 = Fin 0, b_y0 = Fin 0, b_x1 = Fin 10, b_y1 = Fin 10\<rparr>)]) \<and>
   reinsert (\<lambda>t ev. Some (LibraryError ''font'')) [ex_rep, ex_rep] [] =
     Inl (LibraryError ''font'',
          [primary_insert ex_rep, Log (FontFailed ''Arial'' (LibraryError ''font'')),
           fallback_insert ex_rep])"
proof -
  have r: "ex_rep = (\<lparr>b_x0 = Fin 0, b_y0 = Fin 0, b_x1 = Fin 10, b_y1 = Fin 10\<rparr>, ''1.00'',
      ''Arial'', Fin 10, ColorRGB 0 0 0)"
    by (simp add: ex_rep_def)
  have d: "primary_insert ex_rep \<noteq> fallback_insert ex_rep"
    by (simp add: ex_rep_def primary_insert_def fallback_insert_def)
  from fallback_once [OF r refl, where lib = "\<lambda>t ev. None" and tr = "[]" and reps = "[]"]
    fallback_once [OF r refl, where tr = "[]" and reps = "[]" and e = "LibraryError ''font''"
      and lib = "\<lambda>t ev. if ev = fallback_insert ex_rep then None
                         else Some (LibraryError ''font'')"]
    fallback_once [OF r refl, where tr = "[]" and reps = "[ex_rep]"
      and e = "LibraryError ''font''" and ?e2.0 = "LibraryError ''font''"
      and lib = "\<lambda>t ev. Some (LibraryError ''font'')"]
  show ?thesis using d by (simp add: ex_rep_def primary_insert_def fallback_insert_def)
qed


text \<open>
  C9: the base number and the tolerance of the splitting step, put together again, are the
  token; so when the base number is not a number, \<open>convert_value\<close> gives the base number
  back, the unconverted base followed by the tolerance is the token, and the result of
  \<open>replacement_function\<close> is the token, character for character.
\<close>

theorem split_token_roundtrip:
  "fst (split_token t) @ snd (split_token t) = t \<and>
   (py_float (fst (split_token t)) = None \<longrightarrow>
      (\<exists>r. convert_value (fst (split_token t)) ''mm'' p = Inr r \<and>
           r @ snd (split_token t) = t) \<and>
      convert_value (fst (split_token t)) ''mm'' p = Inr (fst (split_token t)) \<and>
      replacement_function t = Inr t)"
  using split_token_concat [of t] replacement_function_unparsed [of t]
  by (simp add: convert_value_def)

theorem split_token_roundtrip_witness:
  "py_float (fst (split_token ''12.5.6+0.1'')) = None \<and>
   split_token ''12.5.6+0.1'' = (''12.5.6'', ''+0.1'') \<and>
   convert_value ''12.5.6'' ''mm'' 1 = Inr ''12.5.6'' \<and>
   replacement_function ''12.5.6+0.1'' = Inr ''12.5.6+0.1''"
proof -
  have a: "split_token ''12.5.6+0.1'' = (''12.5.6'', ''+0.1'')"
    by (simp add: split_token_def)
  have b: "py_float ''12.5.6'' = None" by (simp add: ev)
  from split_token_roundtrip [of "''12.5.6+0.1''" 1] a b show ?thesis by simp
qed

text \<open>
  C10: the text of every group that \<open>group_numeric_spans\<close> returns is not empty and
  consists of digits, points and signs only; so it holds no degree sign, and the first
  branch of \<open>replacement_function\<close> is never taken for a group.
\<close>

theorem group_text_numeric:
  assumes "g \<in> set (group_numeric_spans spans thr)"
  shows "g_text g \<noteq> [] \<and> set (g_text g) \<subseteq> set ''0123456789.+-'' \<and>
         CHR 0xB0 \<notin> set (g_text g)"
proof -
  have "\<forall>g \<in> set (fst (group_loop thr ([], None) spans)).
          g_text g \<noteq> [] \<and> set (g_text g) \<subseteq> set numeric_chars"
    by (rule group_loop_texts) simp
  with assms have t: "g_text g \<noteq> [] \<and> set (g_text g) \<subseteq> set numeric_chars"
    by (simp add: group_numeric_spans_def)
  have "CHR 0xB0 \<notin> set numeric_chars"
    by (simp add: numeric_chars_def)
  with t show ?thesis
    unfolding numeric_chars_def by blast
qed

theorem group_text_numeric_witness:
  "\<lparr>g_text = ''12.5'', g_bbox = \<lparr>b_x0 = Fin 0, b_y0 = Fin 0, b_x1 = Fin 20, b_y1 = Fin 10\<rparr>,
     g_font = ''Arial'', g_size = Fin 10, g_color = ColorRGB 0 0 0\<rparr>
     \<in> set (group_numeric_spans [ex_span '' 12'' 0 10, ex_span ''.5 '' 11 20] default_gap) \<and>
   ''12.5'' \<noteq> [] \<and> set ''12.5'' \<subseteq> set ''0123456789.+-'' \<and> CHR 0xB0 \<notin> set ''12.5''"
  using group_text_numeric [of
     "\<lparr>g_text = ''12.5'', g_bbox = \<lparr>b_x0 = Fin 0, b_y0 = Fin 0, b_x1 = Fin 20, b_y1 = Fin 10\<rparr>,
     g_font = ''Arial'', g_size = Fin 10, g_color = ColorRGB 0 0 0\<rparr>"
     "[ex_span '' 12'' 0 10, ex_span ''.5 '' 11 20]" default_gap]
  by (simp add: gev)

end
